theory Spec2Isabelle
  imports Main "HOL-Library.Word" "HOL-Library.Char_ord" "HOL-Library.List_Lexorder"
    "HOL-Library.Product_Lexorder" "HOL-Library.Sublist" "HOL-Library.Multiset"
begin

unbundle bit_operations_syntax

section \<open>Response codec: result trees and their sanitization\<close>

text \<open>
  A Python float is an IEEE-754 binary64 value, kept here as its 64 bits: one sign bit,
  eleven exponent bits, fifty-two fraction bits.  \<open>math.isnan\<close> and \<open>math.isinf\<close> are
  the usual tests on the exponent and fraction fields, and for an infinity \<open>obj > 0\<close>
  holds exactly when the sign bit is clear.
\<close>

type_synonym pyfloat = "64 word"

definition float_exponent :: "pyfloat \<Rightarrow> 64 word" where
  "float_exponent w = (drop_bit 52 w) AND 0x7FF"

definition float_fraction :: "pyfloat \<Rightarrow> 64 word" where
  "float_fraction w = w AND 0xFFFFFFFFFFFFF"

definition float_negative :: "pyfloat \<Rightarrow> bool" where
  "float_negative w = bit w 63"

definition isnan :: "pyfloat \<Rightarrow> bool" where
  "isnan w = (float_exponent w = 0x7FF \<and> float_fraction w \<noteq> 0)"

definition isinf :: "pyfloat \<Rightarrow> bool" where
  "isinf w = (float_exponent w = 0x7FF \<and> float_fraction w = 0)"

text \<open>
  The result trees handed to the codec: \<open>None\<close>, booleans, integers, floats, strings,
  lists and dictionaries with string keys (kept as association lists, in insertion
  order as Python dictionaries are).
\<close>

datatype json =
    JNull
  | JBool bool
  | JInt int
  | JFloat pyfloat
  | JStr string
  | JList "json list"
  | JDict "(string \<times> json) list"

text \<open>\<open>_sanitize_for_json\<close>: the float test first, then dictionaries, then lists.\<close>

fun sanitize_for_json :: "json \<Rightarrow> json" where
  "sanitize_for_json (JFloat obj) =
     (if isnan obj then JStr ''NaN''
      else if isinf obj then (if \<not> float_negative obj then JStr ''Infinity'' else JStr ''-Infinity'')
      else JFloat obj)"
| "sanitize_for_json (JDict kvs) = JDict (map (\<lambda>(k, v). (k, sanitize_for_json v)) kvs)"
| "sanitize_for_json (JList items) = JList (map sanitize_for_json items)"
| "sanitize_for_json obj = obj"

section \<open>Exceptions and timestamps\<close>

text \<open>
  The exceptions that reach the code: \<open>sqlite3.OperationalError\<close> (a missing table, a
  file that cannot be opened), \<open>sqlite3.DatabaseError\<close> of any other kind (a file that is
  not a database), \<open>OverflowError\<close> (an integer too large to bind to a statement) and
  \<open>ValueError\<close> (a string that is no integer, a timestamp outside the calendar), and
  \<open>OSError\<close> (a file that cannot be examined).
\<close>

datatype exn = OperationalError | DatabaseError | OverflowError | ValueError | OSError

text \<open>
  \<open>datetime.fromtimestamp(ts, tz=timezone.utc).isoformat()\<close>, with the time given in
  microseconds since the epoch.  The calendar covers the years 1 to 9999; a time outside it
  raises.  Inside it the date comes from the day number by the usual civil-calendar
  arithmetic, and the fraction of a second is printed only when it is not zero.
\<close>

definition digit :: "int \<Rightarrow> char" where
  "digit n = char_of (48 + n)"

definition pad2 :: "int \<Rightarrow> string" where
  "pad2 n = [digit (n div 10 mod 10), digit (n mod 10)]"

definition pad4 :: "int \<Rightarrow> string" where
  "pad4 n = pad2 (n div 100) @ pad2 (n mod 100)"

definition pad6 :: "int \<Rightarrow> string" where
  "pad6 n = pad2 (n div 10000) @ pad4 (n mod 10000)"

definition civil_from_days :: "int \<Rightarrow> int \<times> int \<times> int" where
  "civil_from_days days =
     (let z = days + 719468;
          era = z div 146097;
          doe = z - era * 146097;
          yoe = (doe - doe div 1460 + doe div 36524 - doe div 146096) div 365;
          doy = doe - (365 * yoe + yoe div 4 - yoe div 100);
          mp = (5 * doy + 2) div 153;
          d = doy - (153 * mp + 2) div 5 + 1;
          m = (if mp < 10 then mp + 3 else mp - 9);
          y = yoe + era * 400 + (if m \<le> 2 then 1 else 0)
      in (y, m, d))"

definition min_timestamp :: int where
  "min_timestamp = - 62135596800"

definition max_timestamp :: int where
  "max_timestamp = 253402300799"

definition valid_us :: "int \<Rightarrow> bool" where
  "valid_us us = (min_timestamp \<le> us div 1000000 \<and> us div 1000000 \<le> max_timestamp)"

definition isoformat_utc :: "int \<Rightarrow> exn + string" where
  "isoformat_utc us =
     (if \<not> valid_us us then Inl ValueError
      else
        let secs = us div 1000000;
            micro = us mod 1000000;
            (y, m, d) = civil_from_days (secs div 86400);
            sod = secs mod 86400
        in Inr (pad4 y @ ''-'' @ pad2 m @ ''-'' @ pad2 d @ ''T''
                @ pad2 (sod div 3600) @ '':'' @ pad2 (sod div 60 mod 60) @ '':'' @ pad2 (sod mod 60)
                @ (if micro = 0 then [] else ''.'' @ pad6 micro)
                @ ''+00:00''))"

text \<open>\<open>_ts_to_iso\<close>: a whole number of seconds.\<close>

definition ts_to_iso :: "int \<Rightarrow> exn + string" where
  "ts_to_iso ts = isoformat_utc (ts * 1000000)"

section \<open>The run store\<close>

text \<open>
  One run is one SQLite file.  Its tables are lists of rows in insertion order; a table
  that the file does not have is \<open>None\<close>.  Series tables map an id to a path; point
  tables refer to a series by its id.
\<close>

record series =
  ser_id :: int
  ser_path :: string

record metric_point =
  mp_series_id :: int
  mp_step :: int
  mp_y :: pyfloat
  mp_ts :: int

record string_point =
  sp_series_id :: int
  sp_step :: int
  sp_value :: string
  sp_ts :: int

record db =
  run_meta :: "(string \<times> string) list option"
  configs :: "(string \<times> string \<times> string) list option"
  metric_series :: "series list option"
  metric_points :: "metric_point list option"
  string_series :: "series list option"
  string_points :: "string_point list option"

text \<open>A regular file is a database or it is not; every statement on the latter fails.\<close>

datatype store = NotADatabase | Database db

definition tables :: "store \<Rightarrow> exn + db" where
  "tables conn = (case conn of NotADatabase \<Rightarrow> Inl DatabaseError | Database d \<Rightarrow> Inr d)"

section \<open>Paths and the file system\<close>

text \<open>
  A \<open>pathlib\<close> path on POSIX: an anchor (empty for a relative path, \<open>/\<close>, or \<open>//\<close>
  when the text starts with exactly two slashes) and the list of its parts.  Parsing
  a string drops empty parts and \<open>.\<close> parts, and keeps \<open>..\<close> parts.
\<close>

datatype pypath = PyPath (anchor: string) (parts: "string list")




fun intercalate :: "string \<Rightarrow> string list \<Rightarrow> string" where
  "intercalate sep [] = []"
| "intercalate sep [x] = x"
| "intercalate sep (x # y # ys) = x @ sep @ intercalate sep (y # ys)"

definition str_path :: "pypath \<Rightarrow> string" where
  "str_path p = (if anchor p = [] \<and> parts p = [] then ''.'' else anchor p @ intercalate ''/'' (parts p))"

text \<open>
  The file system: the working directory and the entries, each an absolute path without
  \<open>.\<close> or \<open>..\<close> (the list of its names from the root) with its modification time in
  microseconds and its content.  There are no symbolic links.  The root directory always
  exists.
\<close>

datatype content = Directory | Regular store

record node =
  mtime_us :: int
  content :: content

record filesystem =
  cwd :: "string list"
  entries :: "(string list \<times> node) list"

definition lookup :: "filesystem \<Rightarrow> string list \<Rightarrow> node option" where
  "lookup fs p = map_of (entries fs) p"

definition is_dir :: "filesystem \<Rightarrow> string list \<Rightarrow> bool" where
  "is_dir fs p =
     (p = [] \<or> (case lookup fs p of None \<Rightarrow> False | Some n \<Rightarrow> content n = Directory))"

text \<open>
  Name resolution as the kernel does it: every part is looked up in the directory reached
  so far, which must exist; \<open>..\<close> steps to the parent, and the parent of the root is the
  root.
\<close>

fun walk :: "filesystem \<Rightarrow> string list \<Rightarrow> string list \<Rightarrow> string list option" where
  "walk fs cur [] = Some cur"
| "walk fs cur (seg # rest) =
     (if \<not> is_dir fs cur then None
      else if seg = ''..'' then walk fs (butlast cur) rest
      else if seg = ''.'' then walk fs cur rest
      else walk fs (cur @ [seg]) rest)"

definition resolve :: "filesystem \<Rightarrow> pypath \<Rightarrow> string list option" where
  "resolve fs p = walk fs (if anchor p = [] then cwd fs else []) (parts p)"

definition path_exists :: "filesystem \<Rightarrow> pypath \<Rightarrow> bool" where
  "path_exists fs p =
     (case resolve fs p of None \<Rightarrow> False | Some q \<Rightarrow> q = [] \<or> lookup fs q \<noteq> None)"

text \<open>
  \<open>_open_readonly\<close>: the connection is to an existing regular file; a missing file and a
  directory make \<open>sqlite3.connect\<close> raise \<open>OperationalError\<close>.  The busy-timeout pragma
  reads nothing from the file.
\<close>

definition open_readonly :: "filesystem \<Rightarrow> pypath \<Rightarrow> exn + store" where
  "open_readonly fs db_path =
     (case resolve fs db_path of
        None \<Rightarrow> Inl OperationalError
      | Some q \<Rightarrow>
          (case lookup fs q of
             None \<Rightarrow> Inl OperationalError
           | Some n \<Rightarrow>
               (case content n of Directory \<Rightarrow> Inl OperationalError | Regular st \<Rightarrow> Inr st)))"

section \<open>Reading string series\<close>

text \<open>
  A row of \<open>SELECT s.path, p.step, p.value, p.ts FROM string_points p JOIN string_series s
  ON p.series_id = s.id\<close>: one row for every point and every series with the point's id.
  A statement over a table that the file does not have raises \<open>OperationalError\<close>.
\<close>

record string_row =
  row_path :: string
  row_step :: int
  row_value :: string
  row_ts :: int

definition string_join :: "store \<Rightarrow> exn + string_row list" where
  "string_join conn =
     (case tables conn of
        Inl e \<Rightarrow> Inl e
      | Inr d \<Rightarrow>
          (case string_points d of
             None \<Rightarrow> Inl OperationalError
           | Some ps \<Rightarrow>
               (case string_series d of
                  None \<Rightarrow> Inl OperationalError
                | Some ss \<Rightarrow>
                    Inr [\<lparr>row_path = ser_path s, row_step = sp_step p,
                          row_value = sp_value p, row_ts = sp_ts p\<rparr>.
                         p \<leftarrow> ps, s \<leftarrow> ss, ser_id s = sp_series_id p])))"

text \<open>
  Python's truth test on the optional series path: \<open>None\<close> and the empty string both
  select every series.  \<open>sql_where\<close> is the clause \<open>WHERE s.path = ?\<close>, or no clause.
\<close>

definition truthy :: "string option \<Rightarrow> bool" where
  "truthy series_path = (case series_path of None \<Rightarrow> False | Some sp \<Rightarrow> sp \<noteq> [])"

definition sql_where :: "string option \<Rightarrow> string_row list \<Rightarrow> string_row list" where
  "sql_where series_path rows =
     (if truthy series_path then filter (\<lambda>r. Some (row_path r) = series_path) rows else rows)"

text \<open>
  The orderings.  \<open>ORDER BY p.step\<close> for a named series and \<open>ORDER BY s.path, p.step\<close>
  otherwise.  The inner statement of the tail query appends \<open>DESC\<close> to that text, and in SQL
  a direction belongs to the one term it follows: \<open>ORDER BY s.path, p.step DESC\<close> is
  ascending in the path and descending in the step.  Rows with equal keys stay in the
  order of the join (SQLite promises no order among them).
\<close>

definition order_asc :: "string option \<Rightarrow> string_row list \<Rightarrow> string_row list" where
  "order_asc series_path rows =
     (if truthy series_path then sort_key row_step rows
      else sort_key (\<lambda>r. (row_path r, row_step r)) rows)"

definition order_desc :: "string option \<Rightarrow> string_row list \<Rightarrow> string_row list" where
  "order_desc series_path rows =
     (if truthy series_path then sort_key (\<lambda>r. - row_step r) rows
      else sort_key (\<lambda>r. (row_path r, - row_step r)) rows)"

text \<open>
  An integer parameter must fit SQLite's 64-bit integer, else binding it raises
  \<open>OverflowError\<close>.  \<open>LIMIT l OFFSET o\<close>: a negative limit is no limit, a negative
  offset is no offset.
\<close>

definition bind_int :: "int \<Rightarrow> exn + int" where
  "bind_int n = (if - (2 ^ 63) \<le> n \<and> n < 2 ^ 63 then Inr n else Inl OverflowError)"

definition sql_limit :: "int \<Rightarrow> int \<Rightarrow> 'a list \<Rightarrow> 'a list" where
  "sql_limit l off rows =
     (let rest = drop (nat off) rows in if l < 0 then rest else take (nat l) rest)"

text \<open>
  The statements inside the \<open>try\<close> block of \<open>_get_string_series\<close>: the count, then either
  the tail query or the plain query, to which \<open>LIMIT ? OFFSET ?\<close> is added only when a
  limit is given.
\<close>

definition string_series_queries ::
  "store \<Rightarrow> string option \<Rightarrow> int option \<Rightarrow> int \<Rightarrow> int option \<Rightarrow> exn + (string_row list \<times> nat)" where
  "string_series_queries conn series_path limit offset tail =
     (case string_join conn of
        Inl e \<Rightarrow> Inl e
      | Inr joined \<Rightarrow>
          (let scope = sql_where series_path joined;
               cnt = length scope
           in case tail of
                Some t \<Rightarrow>
                  (case bind_int t of
                     Inl e \<Rightarrow> Inl e
                   | Inr t' \<Rightarrow>
                       Inr (order_asc series_path (sql_limit t' 0 (order_desc series_path scope)),
                            cnt))
              | None \<Rightarrow>
                  (case limit of
                     None \<Rightarrow> Inr (order_asc series_path scope, cnt)
                   | Some l \<Rightarrow>
                       (case bind_int l of
                          Inl e \<Rightarrow> Inl e
                        | Inr l' \<Rightarrow>
                            (case bind_int offset of
                               Inl e \<Rightarrow> Inl e
                             | Inr o' \<Rightarrow>
                                 Inr (sql_limit l' o' (order_asc series_path scope), cnt))))))"

record string_point_out =
  pt_path :: string
  pt_step :: int
  pt_value :: string
  pt_logged_at :: string

record string_series_result =
  res_points :: "string_point_out list"
  res_total :: nat

text \<open>The list comprehension that builds the points; it stops at the first exception.\<close>

definition point_of_row :: "string_row \<Rightarrow> exn + string_point_out" where
  "point_of_row row =
     (case ts_to_iso (row_ts row) of
        Inl e \<Rightarrow> Inl e
      | Inr stamp \<Rightarrow>
          Inr \<lparr>pt_path = row_path row, pt_step = row_step row,
               pt_value = row_value row, pt_logged_at = stamp\<rparr>)"

fun collect :: "('a \<Rightarrow> exn + 'b) \<Rightarrow> 'a list \<Rightarrow> exn + 'b list" where
  "collect f [] = Inr []"
| "collect f (x # xs) =
     (case f x of
        Inl e \<Rightarrow> Inl e
      | Inr y \<Rightarrow> (case collect f xs of Inl e \<Rightarrow> Inl e | Inr ys \<Rightarrow> Inr (y # ys)))"

text \<open>
  \<open>_get_string_series\<close>.  The connection is opened before the \<open>try\<close>; only
  \<open>OperationalError\<close> is caught, and gives the empty result; the points are built after
  the \<open>try\<close>.  (The debug line written in the handler is not part of the result.)
\<close>

definition get_string_series ::
  "filesystem \<Rightarrow> pypath \<Rightarrow> string option \<Rightarrow> int option \<Rightarrow> int \<Rightarrow> int option
     \<Rightarrow> exn + string_series_result" where
  "get_string_series fs db_path series_path limit offset tail =
     (case open_readonly fs db_path of
        Inl e \<Rightarrow> Inl e
      | Inr conn \<Rightarrow>
          (case string_series_queries conn series_path limit offset tail of
             Inl OperationalError \<Rightarrow> Inr \<lparr>res_points = [], res_total = 0\<rparr>
           | Inl e \<Rightarrow> Inl e
           | Inr (rows, n) \<Rightarrow>
               (case collect point_of_row rows of
                  Inl e \<Rightarrow> Inl e
                | Inr pts \<Rightarrow> Inr \<lparr>res_points = pts, res_total = n\<rparr>)))"

section \<open>Scanning the projects directory\<close>

text \<open>
  \<open>projects_dir.glob("**/runs/*.sqlite")\<close>, sorted: the entries below the directory whose
  parent is named \<open>runs\<close> and whose name ends in \<open>.sqlite\<close>, at any depth.  Each is
  given by its parts relative to the directory; paths under one directory are ordered as
  these lists of parts are.
\<close>

definition endswith :: "string \<Rightarrow> string \<Rightarrow> bool" where
  "endswith s suf = (length suf \<le> length s \<and> drop (length s - length suf) s = suf)"

definition is_run_file :: "string list \<Rightarrow> bool" where
  "is_run_file rel =
     (2 \<le> length rel \<and> rel ! (length rel - 2) = ''runs'' \<and> endswith (last rel) ''.sqlite'')"

definition glob_runs :: "filesystem \<Rightarrow> pypath \<Rightarrow> string list list" where
  "glob_runs fs projects_dir =
     (case resolve fs projects_dir of
        None \<Rightarrow> []
      | Some r \<Rightarrow>
          if \<not> is_dir fs r then []
          else sort (remdups [drop (length r) p.
                              (p, n) \<leftarrow> entries fs, take (length r) p = r,
                              is_run_file (drop (length r) p)]))"

definition db_path_of :: "pypath \<Rightarrow> string list \<Rightarrow> pypath" where
  "db_path_of projects_dir rel = PyPath (anchor projects_dir) (parts projects_dir @ rel)"

text \<open>\<open>str(db_path.parent.parent.relative_to(projects_dir))\<close> and \<open>db_path.stem\<close>.\<close>

definition project_name_of :: "string list \<Rightarrow> string" where
  "project_name_of rel = str_path (PyPath [] (butlast (butlast rel)))"

definition stem :: "string \<Rightarrow> string" where
  "stem name =
     (if CHR ''.'' \<notin> set name then name
      else
        let i = length name - 1 - length (takeWhile (\<lambda>c. c \<noteq> CHR ''.'') (rev name))
        in if 0 < i \<and> i < length name - 1 then take i name else name)"

text \<open>
  \<open>_read_meta\<close>: the rows of \<open>run_meta\<close> as a dictionary, a later row replacing an
  earlier one with the same key.
\<close>

definition read_meta :: "store \<Rightarrow> exn + (string \<rightharpoonup> string)" where
  "read_meta conn =
     (case tables conn of
        Inl e \<Rightarrow> Inl e
      | Inr d \<Rightarrow>
          (case run_meta d of
             None \<Rightarrow> Inl OperationalError
           | Some rows \<Rightarrow> Inr (map_of (rev rows))))"

text \<open>
  \<open>SELECT DISTINCT s.path FROM string_series s JOIN string_points p ON s.id = p.series_id
  ORDER BY s.path\<close>: the paths of the series that have a point.
\<close>

definition string_series_paths_query :: "store \<Rightarrow> exn + string list" where
  "string_series_paths_query conn =
     (case tables conn of
        Inl e \<Rightarrow> Inl e
      | Inr d \<Rightarrow>
          (case string_series d of
             None \<Rightarrow> Inl OperationalError
           | Some ss \<Rightarrow>
               (case string_points d of
                  None \<Rightarrow> Inl OperationalError
                | Some ps \<Rightarrow>
                    Inr (sort (remdups [ser_path s. s \<leftarrow> ss, p \<leftarrow> ps,
                                        ser_id s = sp_series_id p])))))"

record run =
  run_project :: string
  run_id :: string
  run_experiment_name :: "string option"
  run_created_at :: "string option"
  run_closed_at :: "string option"
  run_status :: string
  run_string_series_paths :: "string list"

definition make_run :: "string list \<Rightarrow> (string \<rightharpoonup> string) \<Rightarrow> string list \<Rightarrow> run" where
  "make_run rel meta string_series_paths =
     \<lparr>run_project = project_name_of rel,
      run_id = (case meta ''run_name'' of None \<Rightarrow> stem (last rel) | Some v \<Rightarrow> v),
      run_experiment_name = meta ''experiment_name'',
      run_created_at = meta ''created_at'',
      run_closed_at = meta ''closed_at'',
      run_status = (case meta ''status'' of None \<Rightarrow> ''unknown'' | Some v \<Rightarrow> v),
      run_string_series_paths = string_series_paths\<rparr>"

text \<open>
  The log lines: the warning \<open>Failed to read run database\<close> and the debug line
  \<open>string_series table not found\<close>, each with the path of the file.
\<close>

datatype log_entry = Warning pypath | Debug pypath

text \<open>
  The body of the loop of \<open>_scan_runs\<close> for one file: the run appended, if any, and the
  lines logged.  The inner handler catches \<open>OperationalError\<close> only; the outer one
  catches every exception, logs it and goes on to the next file.
\<close>

definition scan_run_file :: "filesystem \<Rightarrow> pypath \<Rightarrow> string list \<Rightarrow> run option \<times> log_entry list" where
  "scan_run_file fs projects_dir rel =
     (let db_path = db_path_of projects_dir rel
      in case open_readonly fs db_path of
           Inl e \<Rightarrow> (None, [Warning db_path])
         | Inr conn \<Rightarrow>
             (case read_meta conn of
                Inl e \<Rightarrow> (None, [Warning db_path])
              | Inr meta \<Rightarrow>
                  (case string_series_paths_query conn of
                     Inl OperationalError \<Rightarrow> (Some (make_run rel meta []), [Debug db_path])
                   | Inl e \<Rightarrow> (None, [Warning db_path])
                   | Inr paths \<Rightarrow> (Some (make_run rel meta paths), []))))"

text \<open>
  \<open>list.sort(key=..., reverse=True)\<close>: descending in the key, and elements with equal
  keys stay in their order (the list is reversed, sorted stably, and reversed again).
\<close>

definition sort_reverse :: "('a \<Rightarrow> 'k::linorder) \<Rightarrow> 'a list \<Rightarrow> 'a list" where
  "sort_reverse key xs = rev (sort_key key (rev xs))"

text \<open>The key \<open>r.get("created_at") or ""\<close>: \<open>None\<close> and the empty string give the empty string.\<close>

definition or_empty :: "string option \<Rightarrow> string" where
  "or_empty v = (case v of None \<Rightarrow> [] | Some s \<Rightarrow> s)"

definition scan_runs :: "filesystem \<Rightarrow> pypath \<Rightarrow> run list \<times> log_entry list" where
  "scan_runs fs projects_dir =
     (if \<not> path_exists fs projects_dir then ([], [])
      else
        let results = map (scan_run_file fs projects_dir) (glob_runs fs projects_dir)
        in (sort_reverse (\<lambda>r. or_empty (run_created_at r)) (List.map_filter fst results),
            concat (map snd results)))"

text \<open>
  \<open>_scan_projects\<close>.  The dictionary of projects keeps the order in which the names
  were first seen.  The modification time of a file is read with \<open>stat\<close> and rendered as
  for the timestamps above; the later of two times is the greater string.
\<close>

record project =
  proj_name :: string
  proj_run_count :: nat
  proj_last_modified :: "string option"

definition stat_mtime :: "filesystem \<Rightarrow> pypath \<Rightarrow> exn + int" where
  "stat_mtime fs p =
     (case resolve fs p of
        None \<Rightarrow> Inl OSError
      | Some q \<Rightarrow> (case lookup fs q of None \<Rightarrow> Inl OSError | Some n \<Rightarrow> Inr (mtime_us n)))"

definition count_file :: "string \<Rightarrow> string \<Rightarrow> project list \<Rightarrow> project list" where
  "count_file name mtime projects =
     (let projects' =
            (if name \<in> set (map proj_name projects) then projects
             else projects @ [\<lparr>proj_name = name, proj_run_count = 0, proj_last_modified = None\<rparr>])
      in map (\<lambda>p. if proj_name p \<noteq> name then p
                   else p\<lparr>proj_run_count := proj_run_count p + 1,
                          proj_last_modified :=
                            (case proj_last_modified p of
                               None \<Rightarrow> Some mtime
                             | Some old \<Rightarrow> if mtime > old then Some mtime else Some old)\<rparr>)
             projects')"

fun scan_projects_loop ::
  "filesystem \<Rightarrow> pypath \<Rightarrow> string list list \<Rightarrow> project list \<Rightarrow> exn + project list" where
  "scan_projects_loop fs projects_dir [] projects = Inr projects"
| "scan_projects_loop fs projects_dir (rel # rels) projects =
     (case stat_mtime fs (db_path_of projects_dir rel) of
        Inl e \<Rightarrow> Inl e
      | Inr us \<Rightarrow>
          (case isoformat_utc us of
             Inl e \<Rightarrow> Inl e
           | Inr mtime \<Rightarrow>
               scan_projects_loop fs projects_dir rels
                 (count_file (project_name_of rel) mtime projects)))"

definition scan_projects :: "filesystem \<Rightarrow> pypath \<Rightarrow> exn + project list" where
  "scan_projects fs projects_dir =
     (if \<not> path_exists fs projects_dir then Inr []
      else
        (case scan_projects_loop fs projects_dir (glob_runs fs projects_dir) [] of
           Inl e \<Rightarrow> Inl e
         | Inr projects \<Rightarrow> Inr (sort_reverse (\<lambda>p. or_empty (proj_last_modified p)) projects)))"

section \<open>The request router\<close>
















section \<open>Configs and metrics\<close>









section \<open>Handling a request\<close>
















text \<open>
  Positions in a result tree: a list of indices, each selecting an item of a list or an
  entry (by its position) of a dictionary.  \<open>subtree\<close> reads the value at a position.
\<close>

fun subtree :: "nat list \<Rightarrow> json \<Rightarrow> json option" where
  "subtree [] t = Some t"
| "subtree (i # p) (JList items) = (if i < length items then subtree p (items ! i) else None)"
| "subtree (i # p) (JDict kvs) = (if i < length kvs then subtree p (snd (kvs ! i)) else None)"
| "subtree (i # p) t = None"

text \<open>A tree is finite when no float in it, at any depth, is a NaN or an infinity.\<close>

fun all_finite :: "json \<Rightarrow> bool" where
  "all_finite (JFloat w) = (\<not> isnan w \<and> \<not> isinf w)"
| "all_finite (JList items) = list_all all_finite items"
| "all_finite (JDict kvs) = list_all (\<lambda>kv. all_finite (snd kv)) kvs"
| "all_finite t = True"

section \<open>A file system to run the code on\<close>

text \<open>
  Four stores.  \<open>logs_db\<close> has two string series with three points each, written in
  turn; \<open>bare_db\<close> has identity metadata without \<open>created_at\<close> and no string tables;
  \<open>zoo_db\<close> is a later run without points; \<open>secret_db\<close> belongs to a run that is kept
  outside the served directory.
\<close>

definition logs_db :: db where
  "logs_db =
     \<lparr>run_meta = Some [(''run_name'', ''run1''), (''status'', ''done''),
                        (''created_at'', ''2024-05-01T10:00:00+00:00'')],
      configs = Some [(''lr'', ''float'', ''0.1'')],
      metric_series = Some [\<lparr>ser_id = 1, ser_path = ''loss''\<rparr>],
      metric_points = Some [\<lparr>mp_series_id = 1, mp_step = 0, mp_y = 0x3FF0000000000000, mp_ts = 0\<rparr>,
                             \<lparr>mp_series_id = 1, mp_step = 1, mp_y = 0x7FF8000000000000, mp_ts = 1\<rparr>],
      string_series = Some [\<lparr>ser_id = 1, ser_path = ''stderr''\<rparr>,
                             \<lparr>ser_id = 2, ser_path = ''stdout''\<rparr>],
      string_points = Some
        [\<lparr>sp_series_id = 2, sp_step = 0, sp_value = ''o0'', sp_ts = 0\<rparr>,
         \<lparr>sp_series_id = 1, sp_step = 0, sp_value = ''e0'', sp_ts = 1\<rparr>,
         \<lparr>sp_series_id = 2, sp_step = 1, sp_value = ''o1'', sp_ts = 2\<rparr>,
         \<lparr>sp_series_id = 1, sp_step = 1, sp_value = ''e1'', sp_ts = 3\<rparr>,
         \<lparr>sp_series_id = 2, sp_step = 2, sp_value = ''o2'', sp_ts = 4\<rparr>,
         \<lparr>sp_series_id = 1, sp_step = 2, sp_value = ''e2'', sp_ts = 5\<rparr>]\<rparr>"

definition bare_db :: db where
  "bare_db =
     \<lparr>run_meta = Some [(''status'', ''running'')],
      configs = Some [], metric_series = Some [], metric_points = Some [],
      string_series = None, string_points = None\<rparr>"

definition secret_db :: db where
  "secret_db =
     \<lparr>run_meta = Some [(''run_name'', ''secret'')],
      configs = Some [], metric_series = Some [\<lparr>ser_id = 7, ser_path = ''salary''\<rparr>],
      metric_points = Some [\<lparr>mp_series_id = 7, mp_step = 0, mp_y = 0x3FF0000000000000, mp_ts = 0\<rparr>],
      string_series = Some [], string_points = Some []\<rparr>"

definition zoo_db :: db where
  "zoo_db =
     \<lparr>run_meta = Some [(''run_name'', ''z1''), (''created_at'', ''2024-06-01T08:30:00+00:00'')],
      configs = Some [], metric_series = Some [], metric_points = Some [],
      string_series = Some [], string_points = Some []\<rparr>"

definition dir_node :: node where
  "dir_node = \<lparr>mtime_us = 0, content = Directory\<rparr>"

text \<open>
  The served directory is \<open>/srv/projects\<close>.  Project \<open>acme/widget\<close> has the runs
  \<open>run1\<close>, \<open>run2\<close> (a file that is no database) and \<open>run3\<close>; project \<open>zoo\<close> has
  one run.  \<open>/srv/runs/secret.sqlite\<close> lies beside the served directory.
\<close>

definition example_fs :: filesystem where
  "example_fs =
     \<lparr>cwd = [''srv''],
      entries =
        [([''srv''], dir_node),
         ([''srv'', ''projects''], dir_node),
         ([''srv'', ''projects'', ''acme''], dir_node),
         ([''srv'', ''projects'', ''acme'', ''widget''], dir_node),
         ([''srv'', ''projects'', ''acme'', ''widget'', ''runs''], dir_node),
         ([''srv'', ''projects'', ''acme'', ''widget'', ''runs'', ''run1.sqlite''],
          \<lparr>mtime_us = 1714557600000000, content = Regular (Database logs_db)\<rparr>),
         ([''srv'', ''projects'', ''acme'', ''widget'', ''runs'', ''run2.sqlite''],
          \<lparr>mtime_us = 1714557601500000, content = Regular NotADatabase\<rparr>),
         ([''srv'', ''projects'', ''acme'', ''widget'', ''runs'', ''run3.sqlite''],
          \<lparr>mtime_us = 1714557500000000, content = Regular (Database bare_db)\<rparr>),
         ([''srv'', ''projects'', ''zoo''], dir_node),
         ([''srv'', ''projects'', ''zoo'', ''runs''], dir_node),
         ([''srv'', ''projects'', ''zoo'', ''runs'', ''z.sqlite''],
          \<lparr>mtime_us = 1714557700000000, content = Regular (Database zoo_db)\<rparr>),
         ([''srv'', ''runs''], dir_node),
         ([''srv'', ''runs'', ''secret.sqlite''],
          \<lparr>mtime_us = 0, content = Regular (Database secret_db)\<rparr>)]\<rparr>"

definition example_root :: pypath where
  "example_root = PyPath ''/'' [''srv'', ''projects'']"

definition run1_path :: pypath where
  "run1_path = PyPath ''/'' [''srv'', ''projects'', ''acme'', ''widget'', ''runs'', ''run1.sqlite'']"


definition run3_path :: pypath where
  "run3_path = PyPath ''/'' [''srv'', ''projects'', ''acme'', ''widget'', ''runs'', ''run3.sqlite'']"

definition point :: "string \<Rightarrow> int \<Rightarrow> string \<Rightarrow> string \<Rightarrow> string_point_out" where
  "point p s v t = \<lparr>pt_path = p, pt_step = s, pt_value = v, pt_logged_at = t\<rparr>"


text \<open>
  The slice \<open>[lo, hi)\<close> of a list: its elements at the positions from \<open>lo\<close> up to, and
  without, \<open>hi\<close>; there are no positions below zero.
\<close>

definition slice :: "int \<Rightarrow> int \<Rightarrow> 'a list \<Rightarrow> 'a list" where
  "slice lo hi xs = take (nat hi - nat lo) (drop (nat lo) xs)"

section \<open>The runs a scan is expected to return\<close>

text \<open>
  A run file is readable when it opens as a database that has the identity table.  The
  run built from a readable file has the identity metadata of the file and the paths of
  its string series that have points, none when a string table is missing.  The expected
  runs of a directory are the runs built from its readable run files.
\<close>

definition readable_db :: "filesystem \<Rightarrow> pypath \<Rightarrow> db option" where
  "readable_db fs p =
     (case open_readonly fs p of
        Inr (Database d) \<Rightarrow> (if run_meta d = None then None else Some d)
      | _ \<Rightarrow> None)"

definition expected_run :: "string list \<Rightarrow> db \<Rightarrow> run" where
  "expected_run rel d =
     make_run rel
       (map_of (rev (case run_meta d of None \<Rightarrow> [] | Some rows \<Rightarrow> rows)))
       (case (string_series d, string_points d) of
          (Some ss, Some ps) \<Rightarrow>
            sort (remdups [ser_path s. s \<leftarrow> ss, p \<leftarrow> ps, ser_id s = sp_series_id p])
        | _ \<Rightarrow> [])"

definition expected_runs :: "filesystem \<Rightarrow> pypath \<Rightarrow> run list" where
  "expected_runs fs projects_dir =
     [expected_run rel d.
        rel \<leftarrow> glob_runs fs projects_dir,
        d \<leftarrow> (case readable_db fs (db_path_of projects_dir rel) of None \<Rightarrow> [] | Some d \<Rightarrow> [d])]"



section \<open>Properties of the response codec\<close>

lemma sanitize_all_finite_id: "all_finite t \<Longrightarrow> sanitize_for_json t = t"
proof (induction t rule: sanitize_for_json.induct)
  case (2 kvs)
  have "map (\<lambda>(k, v). (k, sanitize_for_json v)) kvs = map (\<lambda>kv. kv) kvs"
    using 2 by (intro map_cong) (auto simp: list_all_iff)
  then show ?case by simp
next
  case (3 items)
  have "map sanitize_for_json items = map (\<lambda>x. x) items"
    using 3 by (intro map_cong) (auto simp: list_all_iff)
  then show ?case by simp
qed auto

lemma all_finite_sanitize: "all_finite (sanitize_for_json t)"
  by (induction t rule: sanitize_for_json.induct) (auto simp: list_all_iff isnan_def isinf_def)

lemma subtree_sanitize:
  "subtree p (sanitize_for_json t) = map_option sanitize_for_json (subtree p t)"
proof (induction p t rule: subtree.induct)
  case (3 i p kvs)
  then show ?case by (auto simp: case_prod_beta)
qed auto

text \<open>
  Claim C4.  Sanitization turns a NaN into the string \<open>NaN\<close>, the positive infinity into
  \<open>Infinity\<close>, the negative infinity into \<open>-Infinity\<close>, and leaves every finite float,
  integer, string, boolean and \<open>None\<close> as it is; a list is sanitized item by item and a
  dictionary value by value with its keys and their order kept.  Hence at every position
  of a tree the sanitized tree holds the sanitized value of the original, the result never
  holds a non-finite float, and a tree without non-finite floats is returned unchanged.
\<close>

theorem sanitize_for_json_spec:
  "(isnan w \<longrightarrow> sanitize_for_json (JFloat w) = JStr ''NaN'')
   \<and> (isinf w \<and> \<not> float_negative w \<longrightarrow> sanitize_for_json (JFloat w) = JStr ''Infinity'')
   \<and> (isinf w \<and> float_negative w \<longrightarrow> sanitize_for_json (JFloat w) = JStr ''-Infinity'')
   \<and> (\<not> isnan w \<and> \<not> isinf w \<longrightarrow> sanitize_for_json (JFloat w) = JFloat w)
   \<and> sanitize_for_json (JInt i) = JInt i
   \<and> sanitize_for_json (JStr s) = JStr s
   \<and> sanitize_for_json (JBool b) = JBool b
   \<and> sanitize_for_json JNull = JNull
   \<and> sanitize_for_json (JList items) = JList (map sanitize_for_json items)
   \<and> sanitize_for_json (JDict kvs) = JDict (map (\<lambda>(k, v). (k, sanitize_for_json v)) kvs)
   \<and> subtree p (sanitize_for_json t) = map_option sanitize_for_json (subtree p t)
   \<and> all_finite (sanitize_for_json t)
   \<and> (all_finite t \<longrightarrow> sanitize_for_json t = t)"
proof -
  have "isnan w \<Longrightarrow> \<not> isinf w"
    by (simp add: isnan_def isinf_def)
  then show ?thesis
    using subtree_sanitize [of p t] all_finite_sanitize [of t] sanitize_all_finite_id [of t]
    by auto
qed

theorem sanitize_for_json_spec_witness:
  "isnan 0x7FF8000000000000
   \<and> isinf 0x7FF0000000000000 \<and> \<not> float_negative 0x7FF0000000000000
   \<and> isinf 0xFFF0000000000000 \<and> float_negative 0xFFF0000000000000
   \<and> \<not> isnan 0x3FF8000000000000 \<and> \<not> isinf 0x3FF8000000000000
   \<and> sanitize_for_json
        (JDict [(''loss'', JList [JFloat 0x7FF8000000000000, JFloat 0x3FF8000000000000]),
                (''hi'', JFloat 0x7FF0000000000000), (''lo'', JFloat 0xFFF0000000000000),
                (''step'', JInt 3)])
       = JDict [(''loss'', JList [JStr ''NaN'', JFloat 0x3FF8000000000000]),
                (''hi'', JStr ''Infinity''), (''lo'', JStr ''-Infinity''), (''step'', JInt 3)]
   \<and> all_finite (JList [JFloat 0x3FF8000000000000, JStr ''NaN''])
   \<and> sanitize_for_json (JList [JFloat 0x3FF8000000000000, JStr ''NaN''])
       = JList [JFloat 0x3FF8000000000000, JStr ''NaN'']"
proof -
  have nan: "isnan 0x7FF8000000000000"
    by (simp add: isnan_def float_exponent_def float_fraction_def)
  have pinf: "isinf 0x7FF0000000000000 \<and> \<not> float_negative 0x7FF0000000000000"
    by (simp add: isinf_def float_exponent_def float_fraction_def float_negative_def)
  have ninf: "isinf 0xFFF0000000000000 \<and> float_negative 0xFFF0000000000000"
    by (simp add: isinf_def float_exponent_def float_fraction_def float_negative_def)
  have fin: "\<not> isnan 0x3FF8000000000000 \<and> \<not> isinf 0x3FF8000000000000"
    by (simp add: isnan_def isinf_def float_exponent_def float_fraction_def)
  have fin_tree: "all_finite (JList [JFloat 0x3FF8000000000000, JStr ''NaN''])"
    using fin by simp
  note a = sanitize_for_json_spec [of "0x7FF8000000000000" 0 "[]" True "[]" "[]" "[]" JNull]
  note b = sanitize_for_json_spec [of "0x7FF0000000000000" 0 "[]" True "[]" "[]" "[]" JNull]
  note c = sanitize_for_json_spec [of "0xFFF0000000000000" 0 "[]" True "[]" "[]" "[]" JNull]
  note d = sanitize_for_json_spec [of "0x3FF8000000000000" 3 "[]" True
      "[JFloat 0x7FF8000000000000, JFloat 0x3FF8000000000000]"
      "[(''loss'', JList [JFloat 0x7FF8000000000000, JFloat 0x3FF8000000000000]),
        (''hi'', JFloat 0x7FF0000000000000), (''lo'', JFloat 0xFFF0000000000000),
        (''step'', JInt 3)]" "[]"
      "JList [JFloat 0x3FF8000000000000, JStr ''NaN'']"]
  have e: "sanitize_for_json (JList [JFloat 0x3FF8000000000000, JStr ''NaN''])
       = JList [JFloat 0x3FF8000000000000, JStr ''NaN'']"
    using d fin_tree by blast
  have f: "sanitize_for_json
        (JDict [(''loss'', JList [JFloat 0x7FF8000000000000, JFloat 0x3FF8000000000000]),
                (''hi'', JFloat 0x7FF0000000000000), (''lo'', JFloat 0xFFF0000000000000),
                (''step'', JInt 3)])
       = JDict [(''loss'', JList [JStr ''NaN'', JFloat 0x3FF8000000000000]),
                (''hi'', JStr ''Infinity''), (''lo'', JStr ''-Infinity''), (''step'', JInt 3)]"
    using a b c d nan pinf ninf fin by simp
  show ?thesis
    using nan pinf ninf fin fin_tree e f by blast
qed

section \<open>Properties of the string-series reader\<close>

lemma collect_Inr_iff: "collect f xs = Inr ys \<longleftrightarrow> list_all2 (\<lambda>x y. f x = Inr y) xs ys"
proof (induction xs arbitrary: ys)
  case Nil
  show ?case by auto
next
  case (Cons x xs)
  show ?case
  proof (cases "f x")
    case (Inl e)
    then show ?thesis by (auto simp: list_all2_Cons1)
  next
    case fx: (Inr y)
    show ?thesis
    proof (cases "collect f xs")
      case (Inl e)
      then have "\<not> list_all2 (\<lambda>x y. f x = Inr y) xs zs" for zs
        using Cons.IH [of zs] by simp
      then show ?thesis using fx Inl by (auto simp: list_all2_Cons1)
    next
      case (Inr zs)
      then have "list_all2 (\<lambda>x y. f x = Inr y) xs ws \<longleftrightarrow> ws = zs" for ws
        using Cons.IH [of ws] by auto
      then show ?thesis using fx Inr by (auto simp: list_all2_Cons1)
    qed
  qed
qed

lemma collect_length: "collect f xs = Inr ys \<Longrightarrow> length ys = length xs"
  by (simp add: collect_Inr_iff list_all2_lengthD)

lemma collect_take_drop:
  assumes "collect f xs = Inr ys"
  shows "collect f (take n (drop m xs)) = Inr (take n (drop m ys))"
  using assms by (simp add: collect_Inr_iff list_all2_takeI list_all2_dropI)

lemma point_of_row_key:
  "point_of_row r = Inr p \<Longrightarrow> (pt_path p, pt_step p) = (row_path r, row_step r)"
  by (auto simp: point_of_row_def split: sum.splits)

lemma collect_points_keys:
  assumes "collect point_of_row rows = Inr pts"
  shows "map (\<lambda>p. (pt_path p, pt_step p)) pts = map (\<lambda>r. (row_path r, row_step r)) rows"
proof -
  have "list_all2 (\<lambda>r p. point_of_row r = Inr p) rows pts"
    using assms by (simp add: collect_Inr_iff)
  then show ?thesis
    by (induction rule: list_all2_induct) (auto dest: point_of_row_key)
qed



lemma length_order_asc: "length (order_asc sp rows) = length rows"
  by (simp add: order_asc_def)

lemma queries_plain:
  "string_series_queries conn series_path None off None
     = (case string_join conn of
          Inl e \<Rightarrow> Inl e
        | Inr joined \<Rightarrow>
            Inr (order_asc series_path (sql_where series_path joined),
                 length (sql_where series_path joined)))"
  by (simp add: string_series_queries_def Let_def split: sum.splits)

lemma filter_key_singleton:
  assumes "distinct (map f xs)" and "k \<in> set xs"
  shows "filter (\<lambda>x. f k = f x) xs = [k]"
  using assms
proof (induction xs)
  case Nil
  then show ?case by simp
next
  case (Cons x xs)
  show ?case
  proof (cases "k = x")
    case True
    then have "\<forall>y \<in> set xs. f x \<noteq> f y"
      using Cons.prems(1) by auto
    then have "filter (\<lambda>y. f x = f y) xs = []"
      by (simp add: filter_empty_conv)
    then show ?thesis using True by simp
  next
    case False
    then have "k \<in> set xs"
      using Cons.prems(2) by simp
    moreover have "f x \<notin> f ` set xs"
      using Cons.prems(1) by simp
    then have "f k \<noteq> f x"
      using \<open>k \<in> set xs\<close> by (metis imageI)
    ultimately show ?thesis
      using Cons.IH Cons.prems(1) by simp
  qed
qed

lemma sort_key_unique:
  assumes "mset ys = mset xs" and "sorted (map f ys)" and "distinct (map f xs)"
  shows "sort_key f xs = ys"
proof (rule properties_for_sort_key [OF assms(1) _ assms(2)])
  fix k
  assume k: "k \<in> set ys"
  have dys: "distinct (map f ys)"
    using assms(1,3) by (metis distinct_map mset_eq_setD mset_map distinct_count_atmost_1 set_mset_mset
        mset_eq_imp_distinct_iff)
  have "k \<in> set xs"
    using k assms(1) mset_eq_setD by blast
  then show "filter (\<lambda>x. f k = f x) ys = filter (\<lambda>x. f k = f x) xs"
    using filter_key_singleton [OF dys k] filter_key_singleton [OF assms(3)] by simp
qed

lemma sort_key_desc_rev:
  fixes f :: "'a \<Rightarrow> int"
  assumes "distinct (map f xs)"
  shows "sort_key (\<lambda>x. - f x) xs = rev (sort_key f xs)"
proof (rule sort_key_unique)
  show "mset (rev (sort_key f xs)) = mset xs"
    by simp
  have "sorted_wrt (\<lambda>a b. f a \<le> f b) (sort_key f xs)"
    using sorted_sort_key [of f xs] by (simp add: sorted_map)
  then have "sorted_wrt (\<lambda>a b. f b \<le> f a) (rev (sort_key f xs))"
    by (simp add: sorted_wrt_rev)
  then show "sorted (map (\<lambda>x. - f x) (rev (sort_key f xs)))"
    by (simp add: sorted_map)
  show "distinct (map (\<lambda>x. - f x) xs)"
    using assms by (simp add: distinct_map inj_on_def)
qed

lemma sort_key_rev_sorted:
  assumes "sorted (map f ds)" and "distinct (map f ds)"
  shows "sort_key f (rev ds) = ds"
proof (rule sort_key_unique)
  show "mset ds = mset (rev ds)"
    by simp
  show "sorted (map f ds)"
    by (rule assms(1))
  have "distinct (rev (map f ds))"
    using assms(2) by simp
  then show "distinct (map f (rev ds))"
    by (simp only: rev_map)
qed

text \<open>
  With a series named, the tail query does return the suffix of the full ordered result,
  provided the steps of the series are distinct (so that the order of the rows does not
  depend on how equal keys are arranged) and the tail fits a 64-bit integer.
\<close>

lemma tail_named_series_suffix:
  assumes named: "truthy series_path"
    and full: "get_string_series fs db_path series_path None 0 None = Inr full"
    and dist: "distinct (map pt_step (res_points full))"
    and N: "0 \<le> N" "N < 2 ^ 63"
  shows "get_string_series fs db_path series_path None 0 (Some N)
           = Inr \<lparr>res_points = drop (length (res_points full) - nat N) (res_points full),
                  res_total = res_total full\<rparr>"
proof -
  obtain conn where conn: "open_readonly fs db_path = Inr conn"
    using full by (auto simp: get_string_series_def split: sum.splits)
  have bn: "bind_int N = Inr N"
    using N by (simp add: bind_int_def)
  show ?thesis
  proof (cases "string_join conn")
    case (Inl e)
    then show ?thesis
      using full conn
      by (cases e) (auto simp: get_string_series_def string_series_queries_def)
  next
    case (Inr joined)
    define scope where "scope = sql_where series_path joined"
    define rows where "rows = sort_key row_step scope"
    have q0: "string_series_queries conn series_path None 0 None = Inr (rows, length scope)"
      using named by (simp add: queries_plain Inr rows_def scope_def order_asc_def)
    from full conn q0 obtain pts where pts: "collect point_of_row rows = Inr pts"
      and fullv: "full = \<lparr>res_points = pts, res_total = length scope\<rparr>"
      by (auto simp: get_string_series_def split: sum.splits)
    have "map (\<lambda>p. (pt_path p, pt_step p)) pts = map (\<lambda>r. (row_path r, row_step r)) rows"
      using pts by (rule collect_points_keys)
    then have "map snd (map (\<lambda>p. (pt_path p, pt_step p)) pts)
                 = map snd (map (\<lambda>r. (row_path r, row_step r)) rows)"
      by simp
    then have steps: "map pt_step pts = map row_step rows"
      by (simp add: comp_def)
    then have drows: "distinct (map row_step rows)"
      using dist by (simp add: fullv)
    then have dscope: "distinct (map row_step scope)"
      unfolding rows_def by (metis distinct_map distinct_sort inj_on_cong set_sort)
    have len: "length pts = length rows"
      using pts by (rule collect_length)
    define k where "k = length rows - nat N"
    have desc: "order_desc series_path scope = rev rows"
      using named by (simp add: order_desc_def rows_def sort_key_desc_rev [OF dscope])
    have tk: "take (nat N) (rev rows) = rev (drop k rows)"
      by (simp add: k_def take_rev)
    have srt: "sorted (map row_step (drop k rows))"
      unfolding rows_def by (simp add: sorted_wrt_drop drop_map [symmetric])
    have dst: "distinct (map row_step (drop k rows))"
      using drows by (simp add: distinct_drop drop_map [symmetric])
    have asc: "order_asc series_path (rev (drop k rows)) = drop k rows"
      using named by (simp add: order_asc_def sort_key_rev_sorted [OF srt dst])
    have q1: "string_series_queries conn series_path None 0 (Some N) = Inr (drop k rows, length scope)"
      using N by (simp add: string_series_queries_def Inr Let_def bn sql_limit_def desc tk asc
                            scope_def [symmetric])
    have "collect point_of_row (drop k rows) = Inr (drop k pts)"
      using collect_take_drop [OF pts, of "length rows" k] len by simp
    then show ?thesis
      using conn q1 len by (simp add: get_string_series_def fullv k_def)
  qed
qed

text \<open>
  Claim C2, evaluated.  In \<open>logs_db\<close> the full ordered result over all series is the three
  points of \<open>stderr\<close> followed by the three points of \<open>stdout\<close>.  With \<open>tail = 2\<close> and no
  series named, the code returns the points 1 and 2 of \<open>stderr\<close>: the inner statement is
  ascending in the path, so its first two rows are the last two points of the first
  series, not the last two rows of the whole result, which are the points 1 and 2 of
  \<open>stdout\<close>.
\<close>

theorem tail_all_series_evaluation:
  "get_string_series example_fs run1_path None None 0 None
     = Inr \<lparr>res_points =
              [point ''stderr'' 0 ''e0'' ''1970-01-01T00:00:01+00:00'',
               point ''stderr'' 1 ''e1'' ''1970-01-01T00:00:03+00:00'',
               point ''stderr'' 2 ''e2'' ''1970-01-01T00:00:05+00:00'',
               point ''stdout'' 0 ''o0'' ''1970-01-01T00:00:00+00:00'',
               point ''stdout'' 1 ''o1'' ''1970-01-01T00:00:02+00:00'',
               point ''stdout'' 2 ''o2'' ''1970-01-01T00:00:04+00:00''],
            res_total = 6\<rparr>
   \<and> get_string_series example_fs run1_path None None 0 (Some 2)
     = Inr \<lparr>res_points =
              [point ''stderr'' 1 ''e1'' ''1970-01-01T00:00:03+00:00'',
               point ''stderr'' 2 ''e2'' ''1970-01-01T00:00:05+00:00''],
            res_total = 6\<rparr>"
  by code_simp

text \<open>
  Claim C3, as stated, fails for a negative limit: with \<open>limit = -1\<close> and \<open>offset = 0\<close>
  the code returns all three points of \<open>stdout\<close>, while the slice \<open>[0, -1)\<close> of the full
  ordered result is empty.
\<close>

theorem limit_negative_counterexample:
  "get_string_series example_fs run1_path (Some ''stdout'') (Some (- 1)) 0 None
     = Inr \<lparr>res_points =
              [point ''stdout'' 0 ''o0'' ''1970-01-01T00:00:00+00:00'',
               point ''stdout'' 1 ''o1'' ''1970-01-01T00:00:02+00:00'',
               point ''stdout'' 2 ''o2'' ''1970-01-01T00:00:04+00:00''],
            res_total = 3\<rparr>
   \<and> slice 0 (0 + (- 1))
        [point ''stdout'' 0 ''o0'' ''1970-01-01T00:00:00+00:00'',
         point ''stdout'' 1 ''o1'' ''1970-01-01T00:00:02+00:00'',
         point ''stdout'' 2 ''o2'' ''1970-01-01T00:00:04+00:00''] = []"
  by code_simp

text \<open>
  Claim C3, amended.  Let the query without limit, offset and tail succeed with the full
  ordered result.  For every limit \<open>L\<close> and offset \<open>O\<close> from 0 up to the largest 64-bit
  integer, the query with \<open>limit = L\<close> and \<open>offset = O\<close> returns the slice \<open>[O, O + L)\<close> of
  the full ordered result, and its total is the total of the full query, which is the
  number of all matching points.
\<close>

theorem limit_offset_slice:
  assumes full: "get_string_series fs db_path series_path None 0 None = Inr full"
    and L: "0 \<le> L" "L < 2 ^ 63" and off: "0 \<le> off" "off < 2 ^ 63"
  shows "get_string_series fs db_path series_path (Some L) off None
           = Inr \<lparr>res_points = slice off (off + L) (res_points full),
                  res_total = res_total full\<rparr>
         \<and> res_total full = length (res_points full)"
proof -
  obtain conn where conn: "open_readonly fs db_path = Inr conn"
    using full by (auto simp: get_string_series_def split: sum.splits)
  have bl: "bind_int L = Inr L" and bo: "bind_int off = Inr off"
    using L off by (simp_all add: bind_int_def)
  have sl: "slice off (off + L) xs = take (nat L) (drop (nat off) xs)" for xs :: "string_point_out list"
    using L off by (simp add: slice_def nat_add_distrib)
  show ?thesis
  proof (cases "string_join conn")
    case (Inl e)
    then show ?thesis
      using full conn
      by (cases e) (auto simp: get_string_series_def string_series_queries_def slice_def)
  next
    case (Inr joined)
    define rows where "rows = order_asc series_path (sql_where series_path joined)"
    have q0: "string_series_queries conn series_path None 0 None
                = Inr (rows, length (sql_where series_path joined))"
      by (simp add: queries_plain Inr rows_def)
    have q1: "string_series_queries conn series_path (Some L) off None
                = Inr (take (nat L) (drop (nat off) rows), length (sql_where series_path joined))"
      using L by (simp add: string_series_queries_def Inr rows_def Let_def bl bo sql_limit_def)
    from full conn q0 obtain pts where pts: "collect point_of_row rows = Inr pts"
      and fullv: "full = \<lparr>res_points = pts, res_total = length (sql_where series_path joined)\<rparr>"
      by (auto simp: get_string_series_def split: sum.splits)
    have "length pts = length rows"
      using pts by (rule collect_length)
    then have len: "res_total full = length (res_points full)"
      by (simp add: fullv rows_def length_order_asc)
    show ?thesis
      using conn q1 collect_take_drop [OF pts, of "nat L" "nat off"] len
      by (simp add: get_string_series_def fullv sl)
  qed
qed

theorem limit_offset_slice_witness:
  "get_string_series example_fs run1_path (Some ''stdout'') None 0 None
     = Inr \<lparr>res_points =
              [point ''stdout'' 0 ''o0'' ''1970-01-01T00:00:00+00:00'',
               point ''stdout'' 1 ''o1'' ''1970-01-01T00:00:02+00:00'',
               point ''stdout'' 2 ''o2'' ''1970-01-01T00:00:04+00:00''],
            res_total = 3\<rparr>
   \<and> (0 :: int) \<le> 1 \<and> (1 :: int) < 2 ^ 63 \<and> (0 :: int) \<le> 2 \<and> (2 :: int) < 2 ^ 63
   \<and> get_string_series example_fs run1_path (Some ''stdout'') (Some 1) 2 None
     = Inr \<lparr>res_points = [point ''stdout'' 2 ''o2'' ''1970-01-01T00:00:04+00:00''],
            res_total = 3\<rparr>"
proof -
  have full: "get_string_series example_fs run1_path (Some ''stdout'') None 0 None
     = Inr \<lparr>res_points =
              [point ''stdout'' 0 ''o0'' ''1970-01-01T00:00:00+00:00'',
               point ''stdout'' 1 ''o1'' ''1970-01-01T00:00:02+00:00'',
               point ''stdout'' 2 ''o2'' ''1970-01-01T00:00:04+00:00''],
            res_total = 3\<rparr>"
    by code_simp
  show ?thesis
    using full limit_offset_slice [OF full, of 1 2] by (simp add: slice_def)
qed

text \<open>
  Claim C5.  When the run file is a database without the \<open>string_series\<close> table or
  without the \<open>string_points\<close> table, the reader returns the empty point list with total
  0, whatever series path, limit, offset and tail it is given.
\<close>

theorem absent_string_tables_empty_result:
  assumes "open_readonly fs db_path = Inr (Database d)"
    and "string_series d = None \<or> string_points d = None"
  shows "get_string_series fs db_path series_path limit offset tail
           = Inr \<lparr>res_points = [], res_total = 0\<rparr>"
proof -
  have "string_join (Database d) = Inl OperationalError"
    using assms(2) by (auto simp: string_join_def tables_def split: option.splits)
  then show ?thesis
    using assms(1) by (simp add: get_string_series_def string_series_queries_def)
qed

theorem absent_string_tables_empty_result_witness:
  "open_readonly example_fs run3_path = Inr (Database bare_db)
   \<and> (string_series bare_db = None \<or> string_points bare_db = None)
   \<and> get_string_series example_fs run3_path (Some ''stdout'') (Some 10) 0 (Some 5)
       = Inr \<lparr>res_points = [], res_total = 0\<rparr>"
proof -
  have a: "open_readonly example_fs run3_path = Inr (Database bare_db)"
    by code_simp
  have b: "string_series bare_db = None \<or> string_points bare_db = None"
    by (simp add: bare_db_def)
  show ?thesis
    using a b absent_string_tables_empty_result [OF a b, of "Some ''stdout''" "Some 10" 0 "Some 5"]
    by simp
qed




section \<open>Properties of the scans\<close>

lemma sort_reverse_desc: "sorted (rev (map k (sort_reverse k xs)))"
  by (simp add: sort_reverse_def rev_map)

lemma sort_reverse_nth:
  assumes "i \<le> j" "j < length xs"
  shows "k (sort_reverse k xs ! j) \<le> k (sort_reverse k xs ! i)"
proof -
  have "sorted (rev (map k (sort_reverse k xs)))"
    by (rule sort_reverse_desc)
  moreover have "j < length (map k (sort_reverse k xs))"
    using assms by (simp add: sort_reverse_def)
  ultimately have "map k (sort_reverse k xs) ! j \<le> map k (sort_reverse k xs) ! i"
    using assms(1) sorted_rev_nth_mono by blast
  then show ?thesis
    using assms by (simp add: sort_reverse_def)
qed

lemma length_sort_reverse: "length (sort_reverse k xs) = length xs"
  by (simp add: sort_reverse_def)

lemma set_sort_reverse: "set (sort_reverse k xs) = set xs"
  by (simp add: sort_reverse_def)

lemma scan_run_file_readable:
  "scan_run_file fs projects_dir rel =
     (case readable_db fs (db_path_of projects_dir rel) of
        None \<Rightarrow> (None, [Warning (db_path_of projects_dir rel)])
      | Some d \<Rightarrow>
          (Some (expected_run rel d),
           if string_series d = None \<or> string_points d = None
           then [Debug (db_path_of projects_dir rel)] else []))"
proof (cases "open_readonly fs (db_path_of projects_dir rel)")
  case (Inl e)
  then show ?thesis by (simp add: scan_run_file_def readable_db_def)
next
  case (Inr conn)
  show ?thesis
  proof (cases conn)
    case NotADatabase
    then show ?thesis
      using Inr by (simp add: scan_run_file_def readable_db_def read_meta_def tables_def)
  next
    case (Database d)
    then show ?thesis
      using Inr
      by (auto simp: scan_run_file_def readable_db_def read_meta_def tables_def
                     string_series_paths_query_def expected_run_def
               split: option.splits)
  qed
qed

lemma glob_runs_missing: "\<not> path_exists fs projects_dir \<Longrightarrow> glob_runs fs projects_dir = []"
  by (auto simp: path_exists_def glob_runs_def is_dir_def split: option.splits)

lemma scanned_runs:
  "List.map_filter fst (map (scan_run_file fs pd) rels)
     = [expected_run rel d. rel \<leftarrow> rels,
          d \<leftarrow> (case readable_db fs (db_path_of pd rel) of None \<Rightarrow> [] | Some d \<Rightarrow> [d])]"
  by (induction rels) (auto simp: List.map_filter_simps scan_run_file_readable split: option.splits)


lemma scan_runs_fst:
  "fst (scan_runs fs projects_dir)
     = sort_reverse (\<lambda>r. or_empty (run_created_at r)) (expected_runs fs projects_dir)"
  by (cases "path_exists fs projects_dir")
     (simp_all add: scan_runs_def Let_def expected_runs_def scanned_runs glob_runs_missing
                    sort_reverse_def)



text \<open>
  Claim C7.  The runs returned by the deep scan are descending in \<open>created_at\<close>, a missing
  \<open>created_at\<close> counting as the empty string; and every run without \<open>created_at\<close> comes
  after every run that has a non-empty one.
\<close>

theorem scan_runs_sorted:
  "(\<forall>i j. i < j \<and> j < length (fst (scan_runs fs projects_dir))
       \<longrightarrow> or_empty (run_created_at (fst (scan_runs fs projects_dir) ! j))
            \<le> or_empty (run_created_at (fst (scan_runs fs projects_dir) ! i)))
   \<and> (\<forall>i j. i < length (fst (scan_runs fs projects_dir))
         \<and> j < length (fst (scan_runs fs projects_dir))
         \<and> run_created_at (fst (scan_runs fs projects_dir) ! i) = None
         \<and> or_empty (run_created_at (fst (scan_runs fs projects_dir) ! j)) \<noteq> []
       \<longrightarrow> j < i)"
proof -
  define xs where "xs = expected_runs fs projects_dir"
  have rs: "fst (scan_runs fs projects_dir) = sort_reverse (\<lambda>r. or_empty (run_created_at r)) xs"
    by (simp add: xs_def scan_runs_fst)
  have mono: "or_empty (run_created_at (fst (scan_runs fs projects_dir) ! j))
            \<le> or_empty (run_created_at (fst (scan_runs fs projects_dir) ! i))"
    if "i \<le> j" "j < length (fst (scan_runs fs projects_dir))" for i j
    using that sort_reverse_nth [of i j xs "\<lambda>r. or_empty (run_created_at r)"]
    by (simp add: rs length_sort_reverse)
  show ?thesis
  proof (intro conjI allI impI)
    fix i j
    assume "i < j \<and> j < length (fst (scan_runs fs projects_dir))"
    then show "or_empty (run_created_at (fst (scan_runs fs projects_dir) ! j))
            \<le> or_empty (run_created_at (fst (scan_runs fs projects_dir) ! i))"
      using mono [of i j] by simp
  next
    fix i j
    assume a: "i < length (fst (scan_runs fs projects_dir))
         \<and> j < length (fst (scan_runs fs projects_dir))
         \<and> run_created_at (fst (scan_runs fs projects_dir) ! i) = None
         \<and> or_empty (run_created_at (fst (scan_runs fs projects_dir) ! j)) \<noteq> []"
    show "j < i"
    proof (rule ccontr)
      assume "\<not> j < i"
      then have "or_empty (run_created_at (fst (scan_runs fs projects_dir) ! j))
            \<le> or_empty (run_created_at (fst (scan_runs fs projects_dir) ! i))"
        using mono [of i j] a by simp
      then show False
        using a by (simp add: or_empty_def)
    qed
  qed
qed

theorem scan_runs_sorted_witness:
  "map run_created_at (fst (scan_runs example_fs example_root))
     = [Some ''2024-06-01T08:30:00+00:00'', Some ''2024-05-01T10:00:00+00:00'', None]
   \<and> or_empty (run_created_at (fst (scan_runs example_fs example_root) ! 1))
       \<le> or_empty (run_created_at (fst (scan_runs example_fs example_root) ! 0))
   \<and> run_created_at (fst (scan_runs example_fs example_root) ! 2) = None
   \<and> or_empty (run_created_at (fst (scan_runs example_fs example_root) ! 0)) \<noteq> []"
proof -
  have ev: "map run_created_at (fst (scan_runs example_fs example_root))
     = [Some ''2024-06-01T08:30:00+00:00'', Some ''2024-05-01T10:00:00+00:00'', None]"
    by code_simp
  have len: "length (fst (scan_runs example_fs example_root)) = 3"
    using arg_cong [OF ev, of length] by simp
  have n0: "run_created_at (fst (scan_runs example_fs example_root) ! 0)
              = Some ''2024-06-01T08:30:00+00:00''"
    using nth_map [of 0 "fst (scan_runs example_fs example_root)" run_created_at] len ev by simp
  have n2: "run_created_at (fst (scan_runs example_fs example_root) ! 2) = None"
    using nth_map [of 2 "fst (scan_runs example_fs example_root)" run_created_at] len ev by simp
  have "(0 :: nat) < 1 \<and> 1 < length (fst (scan_runs example_fs example_root))"
    using len by simp
  then have le: "or_empty (run_created_at (fst (scan_runs example_fs example_root) ! 1))
       \<le> or_empty (run_created_at (fst (scan_runs example_fs example_root) ! 0))"
    using scan_runs_sorted [of example_fs example_root] by blast
  have "or_empty (run_created_at (fst (scan_runs example_fs example_root) ! 0)) \<noteq> []"
    using n0 by (simp add: or_empty_def)
  then show ?thesis
    using ev le n2 by blast
qed

lemma count_file_modified:
  assumes "\<forall>p \<in> set projects. proj_last_modified p \<noteq> None"
  shows "\<forall>p \<in> set (count_file name mtime projects). proj_last_modified p \<noteq> None"
  using assms by (auto simp: count_file_def Let_def split: option.splits)

lemma scan_projects_loop_modified:
  assumes "scan_projects_loop fs pd rels acc = Inr ps"
    and "\<forall>p \<in> set acc. proj_last_modified p \<noteq> None"
  shows "\<forall>p \<in> set ps. proj_last_modified p \<noteq> None"
  using assms
proof (induction rels arbitrary: acc)
  case Nil
  then show ?case by simp
next
  case (Cons rel rels)
  from Cons.prems(1) obtain us mtime where
    "scan_projects_loop fs pd rels (count_file (project_name_of rel) mtime acc) = Inr ps"
    by (auto split: sum.splits)
  then show ?case
    using Cons.IH count_file_modified [OF Cons.prems(2)] by blast
qed

lemma isoformat_utc_valid: "valid_us us \<Longrightarrow> \<exists>s. isoformat_utc us = Inr s"
  by (simp add: isoformat_utc_def Let_def split: prod.splits)

lemma scan_projects_loop_total:
  assumes "\<forall>rel \<in> set rels. \<exists>us. stat_mtime fs (db_path_of pd rel) = Inr us \<and> valid_us us"
  shows "\<exists>ps. scan_projects_loop fs pd rels acc = Inr ps"
  using assms
proof (induction rels arbitrary: acc)
  case Nil
  then show ?case by simp
next
  case (Cons rel rels)
  then obtain us where us: "stat_mtime fs (db_path_of pd rel) = Inr us" "valid_us us"
    by auto
  then obtain s where s: "isoformat_utc us = Inr s"
    using isoformat_utc_valid by blast
  show ?case
    using Cons.IH [of "count_file (project_name_of rel) s acc"] Cons.prems us s by simp
qed

text \<open>
  Claim C10.  Whenever the lightweight scan returns, its projects are descending in
  \<open>last_modified\<close>, a project without \<open>last_modified\<close> would come after every project that
  has one, and in fact every returned project has one.  The scan returns when every run
  file found can be examined and has a modification time within the calendar.
\<close>

theorem scan_projects_sorted:
  "(\<forall>ps. scan_projects fs projects_dir = Inr ps \<longrightarrow>
      (\<forall>i j. i < j \<and> j < length ps
          \<longrightarrow> or_empty (proj_last_modified (ps ! j)) \<le> or_empty (proj_last_modified (ps ! i)))
      \<and> (\<forall>i j. i < length ps \<and> j < length ps \<and> proj_last_modified (ps ! i) = None
                \<and> or_empty (proj_last_modified (ps ! j)) \<noteq> []
          \<longrightarrow> j < i)
      \<and> (\<forall>p \<in> set ps. proj_last_modified p \<noteq> None))
   \<and> ((\<forall>rel \<in> set (glob_runs fs projects_dir).
          \<exists>us. stat_mtime fs (db_path_of projects_dir rel) = Inr us \<and> valid_us us)
        \<longrightarrow> (\<exists>ps. scan_projects fs projects_dir = Inr ps))"
proof (rule conjI, rule allI, rule impI)
  fix ps
  assume ps: "scan_projects fs projects_dir = Inr ps"
  then obtain xs where sorted: "ps = sort_reverse (\<lambda>p. or_empty (proj_last_modified p)) xs"
    and xs: "\<forall>p \<in> set xs. proj_last_modified p \<noteq> None"
  proof (cases "path_exists fs projects_dir")
    case True
    with ps obtain ys where ys: "scan_projects_loop fs projects_dir (glob_runs fs projects_dir) [] = Inr ys"
      and "ps = sort_reverse (\<lambda>p. or_empty (proj_last_modified p)) ys"
      by (auto simp: scan_projects_def split: sum.splits)
    moreover have "\<forall>p \<in> set ys. proj_last_modified p \<noteq> None"
      using scan_projects_loop_modified [OF ys] by simp
    ultimately show ?thesis using that by blast
  next
    case False
    with ps have "ps = sort_reverse (\<lambda>p. or_empty (proj_last_modified p)) []"
      by (simp add: scan_projects_def sort_reverse_def)
    then show ?thesis using that [of "[]"] by simp
  qed
  have mono: "or_empty (proj_last_modified (ps ! j)) \<le> or_empty (proj_last_modified (ps ! i))"
    if "i \<le> j" "j < length ps" for i j
    using that sort_reverse_nth [of i j xs "\<lambda>p. or_empty (proj_last_modified p)"]
    by (simp add: sorted length_sort_reverse)
  have a: "\<forall>i j. i < j \<and> j < length ps
          \<longrightarrow> or_empty (proj_last_modified (ps ! j)) \<le> or_empty (proj_last_modified (ps ! i))"
    using mono by simp
  have c: "\<forall>p \<in> set ps. proj_last_modified p \<noteq> None"
    using xs by (simp add: sorted set_sort_reverse)
  then have b: "\<forall>i j. i < length ps \<and> j < length ps \<and> proj_last_modified (ps ! i) = None
                \<and> or_empty (proj_last_modified (ps ! j)) \<noteq> []
          \<longrightarrow> j < i"
    by (metis nth_mem)
  show "(\<forall>i j. i < j \<and> j < length ps
          \<longrightarrow> or_empty (proj_last_modified (ps ! j)) \<le> or_empty (proj_last_modified (ps ! i)))
      \<and> (\<forall>i j. i < length ps \<and> j < length ps \<and> proj_last_modified (ps ! i) = None
                \<and> or_empty (proj_last_modified (ps ! j)) \<noteq> []
          \<longrightarrow> j < i)
      \<and> (\<forall>p \<in> set ps. proj_last_modified p \<noteq> None)"
    using a b c by blast
next
  show "(\<forall>rel \<in> set (glob_runs fs projects_dir).
          \<exists>us. stat_mtime fs (db_path_of projects_dir rel) = Inr us \<and> valid_us us)
        \<longrightarrow> (\<exists>ps. scan_projects fs projects_dir = Inr ps)"
  proof
    assume "\<forall>rel \<in> set (glob_runs fs projects_dir).
          \<exists>us. stat_mtime fs (db_path_of projects_dir rel) = Inr us \<and> valid_us us"
    then obtain ys where "scan_projects_loop fs projects_dir (glob_runs fs projects_dir) [] = Inr ys"
      using scan_projects_loop_total by blast
    then show "\<exists>ps. scan_projects fs projects_dir = Inr ps"
      by (simp add: scan_projects_def)
  qed
qed

theorem scan_projects_sorted_witness:
  "scan_projects example_fs example_root
     = Inr [\<lparr>proj_name = ''zoo'', proj_run_count = 1,
              proj_last_modified = Some ''2024-05-01T10:01:40+00:00''\<rparr>,
            \<lparr>proj_name = ''acme/widget'', proj_run_count = 3,
              proj_last_modified = Some ''2024-05-01T10:00:01.500000+00:00''\<rparr>]
   \<and> or_empty (Some ''2024-05-01T10:00:01.500000+00:00'')
       \<le> or_empty (Some ''2024-05-01T10:01:40+00:00'')"
proof -
  define ps where "ps = [\<lparr>proj_name = ''zoo'', proj_run_count = 1,
              proj_last_modified = Some ''2024-05-01T10:01:40+00:00''\<rparr>,
            \<lparr>proj_name = ''acme/widget'', proj_run_count = 3,
              proj_last_modified = Some ''2024-05-01T10:00:01.500000+00:00''\<rparr>]"
  have g: "glob_runs example_fs example_root
             = [[''acme'', ''widget'', ''runs'', ''run1.sqlite''],
                [''acme'', ''widget'', ''runs'', ''run2.sqlite''],
                [''acme'', ''widget'', ''runs'', ''run3.sqlite''],
                [''zoo'', ''runs'', ''z.sqlite'']]"
    by code_simp
  have s1: "stat_mtime example_fs (db_path_of example_root [''acme'', ''widget'', ''runs'', ''run1.sqlite''])
              = Inr 1714557600000000 \<and> valid_us 1714557600000000"
    by code_simp
  have s2: "stat_mtime example_fs (db_path_of example_root [''acme'', ''widget'', ''runs'', ''run2.sqlite''])
              = Inr 1714557601500000 \<and> valid_us 1714557601500000"
    by code_simp
  have s3: "stat_mtime example_fs (db_path_of example_root [''acme'', ''widget'', ''runs'', ''run3.sqlite''])
              = Inr 1714557500000000 \<and> valid_us 1714557500000000"
    by code_simp
  have s4: "stat_mtime example_fs (db_path_of example_root [''zoo'', ''runs'', ''z.sqlite''])
              = Inr 1714557700000000 \<and> valid_us 1714557700000000"
    by code_simp
  have hyp: "\<forall>rel \<in> set (glob_runs example_fs example_root).
          \<exists>us. stat_mtime example_fs (db_path_of example_root rel) = Inr us \<and> valid_us us"
    using s1 s2 s3 s4 by (simp add: g)
  then obtain qs where qs: "scan_projects example_fs example_root = Inr qs"
    using scan_projects_sorted [of example_fs example_root] by blast
  have ev: "scan_projects example_fs example_root = Inr ps"
    unfolding ps_def by code_simp
  have "(0 :: nat) < 1 \<and> 1 < length ps"
    by (simp add: ps_def)
  then have "or_empty (proj_last_modified (ps ! 1)) \<le> or_empty (proj_last_modified (ps ! 0))"
    using scan_projects_sorted [of example_fs example_root] ev by blast
  then have "or_empty (Some ''2024-05-01T10:00:01.500000+00:00'')
       \<le> or_empty (Some ''2024-05-01T10:01:40+00:00'')"
    by (simp add: ps_def)
  then show ?thesis
    using ev unfolding ps_def by blast
qed

section \<open>Properties of the router\<close>




















section \<open>Properties of the path resolution\<close>










end
